theory Spec2Isabelle
  imports Main
begin

section \<open>Errors\<close>

text \<open>
  The errors the engine hands to the storage package: \<open>sql.ErrNoRows\<close>, a value of the
  driver's type \<open>sqlite3.Error\<close> with its \<open>Code\<close> and \<open>ExtendedCode\<close>, or any other error of
  \<open>database/sql\<close> and the driver.
\<close>

datatype engine_error =
    ErrNoRows
  | SqliteError nat nat
  | OtherError string

text \<open>
  Modelled from the spec: package \<open>storage\<close>, which declares the sentinel errors
  \<open>storage.ErrURLExists\<close> and \<open>storage.ErrURLNotFound\<close>, is not among the sources. The
  spec's taxonomy has them as two distinct typed errors (\<open>ErrAliasExists\<close>, \<open>ErrNotFound\<close>),
  so they are two distinct constants here.

  The errors the storage package returns: the two sentinels; \<open>Engine e\<close>, an error of the engine;
  \<open>Errorf p c\<close> is the value of \<open>fmt.Errorf\<close> with one \<open>%w\<close> verb at the end of its format:
  \<open>p\<close> is the formatted text in front of the wrapped error and \<open>c\<close> the wrapped error.
\<close>

datatype error =
    ErrURLExists
  | ErrURLNotFound
  | Engine engine_error
  | Errorf string error

text \<open>\<open>errors.Unwrap\<close> and \<open>errors.Is\<close>.\<close>

fun errors_Unwrap :: "error \<Rightarrow> error option" where
  "errors_Unwrap (Errorf p c) = Some c"
| "errors_Unwrap e = None"

fun errors_Is :: "error \<Rightarrow> error \<Rightarrow> bool" where
  "errors_Is (Errorf p c) target = (Errorf p c = target \<or> errors_Is c target)"
| "errors_Is e target = (e = target)"

text \<open>\<open>sqlite3.ErrConstraint\<close> is 19 and \<open>sqlite3.ErrConstraintUnique\<close> is \<open>19 | 8<<8\<close>.\<close>

definition ErrConstraint :: nat where
  "ErrConstraint = 19"

definition ErrConstraintUnique :: nat where
  "ErrConstraintUnique = 2067"

definition ErrError :: nat where
  "ErrError = 1"

definition ErrFull :: nat where
  "ErrFull = 13"

text \<open>
  The test of \<open>SaveURL\<close>:
  \<open>sqliteErr, ok := err.(sqlite3.Error); ok && sqliteErr.ExtendedCode == sqlite3.ErrConstraintUnique\<close>.
\<close>

fun is_constraint_unique :: "engine_error \<Rightarrow> bool" where
  "is_constraint_unique (SqliteError code ext) = (ext = ErrConstraintUnique)"
| "is_constraint_unique e = False"

section \<open>The database\<close>

text \<open>
  The package keeps its whole state in an SQLite database, which it reaches through
  \<open>database/sql\<close> and the driver \<open>go-sqlite3\<close>. This section gives the five SQL texts of
  the source the meaning that the engine gives them.
\<close>

text \<open>A row of table \<open>url\<close>: the columns \<open>id\<close>, \<open>alias\<close> and \<open>url\<close>.\<close>

record row =
  row_id :: int
  row_alias :: string
  row_url :: string

record index =
  idx_name :: string
  idx_table :: string
  idx_column :: string
  idx_unique :: bool

text \<open>
  The content of the database file as far as the five statements of the package read or
  write it: table \<open>url\<close> (\<open>None\<close> while it does not exist, its rows in insertion order
  otherwise) and the indexes.
\<close>

record database =
  url_tbl :: "row list option"
  indexes :: "index list"

definition empty_database :: database where
  "empty_database = \<lparr>url_tbl = None, indexes = []\<rparr>"

text \<open>
  What the engine does at one call beyond what the database content decides: a failure of
  \<open>sql.Open\<close>, of \<open>Prepare\<close>, of the execution of the statement (\<open>Exec\<close>, \<open>QueryRow.Scan\<close>)
  or of reading the result (\<open>LastInsertId\<close>, \<open>RowsAffected\<close>), and the row id that the
  engine's random search finds when the largest id of the table is the largest integer.
\<close>

record faults =
  open_err :: "engine_error option"
  prepare_err :: "engine_error option"
  exec_err :: "engine_error option"
  result_err :: "engine_error option"
  rowid_probe :: "int option"

definition no_faults :: faults where
  "no_faults = \<lparr>open_err = None, prepare_err = None, exec_err = None, result_err = None,
     rowid_probe = None\<rparr>"

definition MAX_ROWID :: int where
  "MAX_ROWID = 9223372036854775807"

definition no_such_table :: engine_error where
  "no_such_table = SqliteError ErrError ErrError"

text \<open>
  An index on column \<open>alias\<close> of table \<open>url\<close>, and a unique one. The engine enforces
  \<open>UNIQUE\<close> through a unique index.
\<close>

definition alias_indexed :: "database \<Rightarrow> bool" where
  "alias_indexed db =
     (\<exists>ix \<in> set (indexes db). idx_table ix = ''url'' \<and> idx_column ix = ''alias'')"

definition alias_unique :: "database \<Rightarrow> bool" where
  "alias_unique db =
     (\<exists>ix \<in> set (indexes db). idx_table ix = ''url'' \<and> idx_column ix = ''alias'' \<and> idx_unique ix)"

subsection \<open>The statements of \<open>SaveURL\<close>, \<open>GetURL\<close> and \<open>DeleteURL\<close>\<close>

text \<open>Compiling a statement on table \<open>url\<close> fails when the table does not exist.\<close>

definition prepare :: "faults \<Rightarrow> database \<Rightarrow> engine_error + unit" where
  "prepare f db =
     (case prepare_err f of
        Some e \<Rightarrow> Inl e
      | None \<Rightarrow> (case url_tbl db of None \<Rightarrow> Inl no_such_table | Some rs \<Rightarrow> Inr ()))"

text \<open>
  The id of a new row of a table with \<open>id INTEGER PRIMARY KEY\<close> and no \<open>AUTOINCREMENT\<close>:
  1 in an empty table, one more than the largest id otherwise; when the largest id is the
  largest 64-bit integer, an unused id found by random search, or the error \<open>SQLITE_FULL\<close>.
\<close>

definition new_rowid :: "faults \<Rightarrow> row list \<Rightarrow> engine_error + int" where
  "new_rowid f rs =
     (if rs = [] then Inr 1
      else if Max (set (map row_id rs)) < MAX_ROWID then Inr (Max (set (map row_id rs)) + 1)
      else (case rowid_probe f of
              None \<Rightarrow> Inl (SqliteError ErrFull ErrFull)
            | Some r \<Rightarrow>
                if 1 \<le> r \<and> r \<le> MAX_ROWID \<and> r \<notin> set (map row_id rs) then Inr r
                else Inl (SqliteError ErrFull ErrFull)))"

text \<open>\<open>INSERT INTO url(url, alias) VALUES(?, ?)\<close>\<close>

definition exec_insert ::
  "faults \<Rightarrow> string \<Rightarrow> string \<Rightarrow> database \<Rightarrow> (engine_error + int) \<times> database" where
  "exec_insert f u a db =
     (case exec_err f of
        Some e \<Rightarrow> (Inl e, db)
      | None \<Rightarrow>
          (case url_tbl db of
             None \<Rightarrow> (Inl no_such_table, db)
           | Some rs \<Rightarrow>
               (case new_rowid f rs of
                  Inl e \<Rightarrow> (Inl e, db)
                | Inr i \<Rightarrow>
                    if alias_unique db \<and> a \<in> set (map row_alias rs)
                    then (Inl (SqliteError ErrConstraint ErrConstraintUnique), db)
                    else (Inr i,
                          db\<lparr>url_tbl := Some (rs @ [\<lparr>row_id = i, row_alias = a, row_url = u\<rparr>])\<rparr>))))"

text \<open>\<open>SELECT url FROM url WHERE alias = ?\<close>, read by \<open>QueryRow(alias).Scan\<close>: the first row.\<close>

definition query_row :: "faults \<Rightarrow> string \<Rightarrow> database \<Rightarrow> engine_error + string" where
  "query_row f a db =
     (case exec_err f of
        Some e \<Rightarrow> Inl e
      | None \<Rightarrow>
          (case url_tbl db of
             None \<Rightarrow> Inl no_such_table
           | Some rs \<Rightarrow>
               (case filter (\<lambda>r. row_alias r = a) rs of
                  [] \<Rightarrow> Inl ErrNoRows
                | r # rest \<Rightarrow> Inr (row_url r))))"

text \<open>\<open>DELETE FROM url WHERE alias = ?\<close>, with the number of rows it removes.\<close>

definition exec_delete :: "faults \<Rightarrow> string \<Rightarrow> database \<Rightarrow> (engine_error + int) \<times> database" where
  "exec_delete f a db =
     (case exec_err f of
        Some e \<Rightarrow> (Inl e, db)
      | None \<Rightarrow>
          (case url_tbl db of
             None \<Rightarrow> (Inl no_such_table, db)
           | Some rs \<Rightarrow>
               (Inr (int (length (filter (\<lambda>r. row_alias r = a) rs))),
                db\<lparr>url_tbl := Some (filter (\<lambda>r. row_alias r \<noteq> a) rs)\<rparr>)))"

section \<open>The operations of the storage\<close>

definition op_SaveURL :: string where
  "op_SaveURL = ''storage.sqlite.SaveURL''"

definition op_GetURL :: string where
  "op_GetURL = ''storage.sqlite.GetURL''"

definition fn_DeleteURL :: string where
  "fn_DeleteURL = ''storage.sqlite.DeleteURL''"

definition SaveURL ::
  "faults \<Rightarrow> string \<Rightarrow> string \<Rightarrow> database \<Rightarrow> (error + int) \<times> database" where
  "SaveURL f urlToSave alias db =
     (case prepare f db of
        Inl err \<Rightarrow> (Inl (Errorf (op_SaveURL @ '': '') (Engine err)), db)
      | Inr stmt \<Rightarrow>
          (case exec_insert f urlToSave alias db of
             (Inl err, db') \<Rightarrow>
               if is_constraint_unique err
               then (Inl (Errorf (op_SaveURL @ '': '') ErrURLExists), db')
               else (Inl (Errorf (op_SaveURL @ '': '') (Engine err)), db')
           | (Inr i, db') \<Rightarrow>
               (case result_err f of
                  Some err \<Rightarrow>
                    (Inl (Errorf (op_SaveURL @ '': failed to get last insert id: '') (Engine err)),
                     db')
                | None \<Rightarrow> (Inr i, db'))))"

definition GetURL :: "faults \<Rightarrow> string \<Rightarrow> database \<Rightarrow> error + string" where
  "GetURL f alias db =
     (case prepare f db of
        Inl err \<Rightarrow> Inl (Errorf (op_GetURL @ '': prepare statement: '') (Engine err))
      | Inr stmt \<Rightarrow>
          (case query_row f alias db of
             Inl err \<Rightarrow>
               if err = ErrNoRows then Inl ErrURLNotFound
               else Inl (Errorf (op_GetURL @ '': execute statement: '') (Engine err))
           | Inr resURL \<Rightarrow> Inr resURL))"

definition DeleteURL :: "faults \<Rightarrow> string \<Rightarrow> database \<Rightarrow> (error + int) \<times> database" where
  "DeleteURL f alias db =
     (case exec_delete f alias db of
        (Inl err, db') \<Rightarrow>
          (Inl (Errorf (fn_DeleteURL @ '': execute statement '') (Engine err)), db')
      | (Inr rowsAffected, db') \<Rightarrow>
          (case result_err f of
             Some err \<Rightarrow>
               (Inl (Errorf (fn_DeleteURL @ '': get rows affected: '') (Engine err)), db')
           | None \<Rightarrow> (Inr rowsAffected, db')))"

subsection \<open>\<open>New\<close>\<close>

text \<open>
  The text that \<open>New\<close> passes to \<open>db.Prepare\<close> holds, one after the other,
  \<open>CREATE TABLE IF NOT EXISTS url(id INTEGER PRIMARY KEY, alias TEXT NOT NULL UNIQUE, url TEXT NOT NULL);\<close>,
  \<open>CREATE INDEX IF NOT EXISTS idx_alias ON url(alias);\<close> and a closing parenthesis that
  belongs to no statement.
\<close>

datatype sql_stmt =
    CreateTableIfNotExists
  | CreateIndexIfNotExists
  | Unparsed string

definition schema_text :: "sql_stmt list" where
  "schema_text = [CreateTableIfNotExists, CreateIndexIfNotExists, Unparsed '')'']"

text \<open>
  \<open>Prepare\<close> compiles the first statement of its text and leaves the rest of the text
  uncompiled; the statement it returns runs that first statement only. (The text of \<open>New\<close>
  is not empty, so the first case is not reached.)
\<close>

definition prepare_text :: "faults \<Rightarrow> sql_stmt list \<Rightarrow> engine_error + sql_stmt" where
  "prepare_text f text =
     (case prepare_err f of
        Some e \<Rightarrow> Inl e
      | None \<Rightarrow>
          (case text of
             [] \<Rightarrow> Inl (OtherError ''empty statement'')
           | Unparsed t # rest \<Rightarrow> Inl (SqliteError ErrError ErrError)
           | s # rest \<Rightarrow> Inr s))"

text \<open>The index that the engine creates for the \<open>UNIQUE\<close> constraint of column \<open>alias\<close>.\<close>

definition autoindex :: index where
  "autoindex = \<lparr>idx_name = ''sqlite_autoindex_url_1'', idx_table = ''url'',
     idx_column = ''alias'', idx_unique = True\<rparr>"

definition idx_alias :: index where
  "idx_alias = \<lparr>idx_name = ''idx_alias'', idx_table = ''url'',
     idx_column = ''alias'', idx_unique = False\<rparr>"

definition exec_stmt :: "faults \<Rightarrow> sql_stmt \<Rightarrow> database \<Rightarrow> (engine_error + unit) \<times> database" where
  "exec_stmt f s db =
     (case exec_err f of
        Some e \<Rightarrow> (Inl e, db)
      | None \<Rightarrow>
          (case s of
             CreateTableIfNotExists \<Rightarrow>
               (case url_tbl db of
                  Some rs \<Rightarrow> (Inr (), db)
                | None \<Rightarrow> (Inr (), db\<lparr>url_tbl := Some [], indexes := indexes db @ [autoindex]\<rparr>))
           | CreateIndexIfNotExists \<Rightarrow>
               if ''idx_alias'' \<in> set (map idx_name (indexes db)) then (Inr (), db)
               else (case url_tbl db of
                       None \<Rightarrow> (Inl no_such_table, db)
                     | Some rs \<Rightarrow> (Inr (), db\<lparr>indexes := indexes db @ [idx_alias]\<rparr>))
           | Unparsed t \<Rightarrow> (Inl (SqliteError ErrError ErrError), db)))"

definition op_New :: string where
  "op_New = ''storage.sqlite.New''"

text \<open>
  \<open>New\<close> on the database at \<open>storagePath\<close>. The storage it returns is the handle of that
  database, so the model returns the database.
\<close>

definition New :: "faults \<Rightarrow> database \<Rightarrow> (error + unit) \<times> database" where
  "New f db =
     (case open_err f of
        Some err \<Rightarrow> (Inl (Errorf (op_New @ '': '') (Engine err)), db)
      | None \<Rightarrow>
          (case prepare_text f schema_text of
             Inl err \<Rightarrow> (Inl (Errorf (op_New @ '': '') (Engine err)), db)
           | Inr stmt \<Rightarrow>
               (case exec_stmt f stmt db of
                  (Inl err, db') \<Rightarrow> (Inl (Errorf (op_New @ '': '') (Engine err)), db')
                | (Inr u, db') \<Rightarrow> (Inr (), db'))))"

section \<open>Sequences of operations\<close>

datatype call =
    Save faults string string
  | Get faults string
  | Delete faults string

fun step :: "call \<Rightarrow> database \<Rightarrow> database" where
  "step (Save f u a) db = snd (SaveURL f u a db)"
| "step (Get f a) db = db"
| "step (Delete f a) db = snd (DeleteURL f a db)"

fun run :: "call list \<Rightarrow> database \<Rightarrow> database" where
  "run [] db = db"
| "run (c # cs) db = run cs (step c db)"

section \<open>Predicates on the state\<close>

text \<open>The rows of table \<open>url\<close>; the aliases that have a live record.\<close>

definition rows :: "database \<Rightarrow> row list" where
  "rows db = (case url_tbl db of None \<Rightarrow> [] | Some rs \<Rightarrow> rs)"

definition live :: "database \<Rightarrow> string \<Rightarrow> bool" where
  "live db a = (a \<in> set (map row_alias (rows db)))"

text \<open>At most one live record for each alias.\<close>

definition one_per_alias :: "database \<Rightarrow> bool" where
  "one_per_alias db = distinct (map row_alias (rows db))"

text \<open>
  The state of a database that \<open>New\<close> has created: table \<open>url\<close> exists with the unique
  index of its \<open>alias\<close> column, and no two rows share an alias.
\<close>

definition initialised :: "database \<Rightarrow> bool" where
  "initialised db = (url_tbl db \<noteq> None \<and> alias_unique db)"

definition invariant :: "database \<Rightarrow> bool" where
  "invariant db = (initialised db \<and> one_per_alias db)"

text \<open>The largest id of the table is below the largest 64-bit integer.\<close>

definition rowid_room :: "database \<Rightarrow> bool" where
  "rowid_room db = (\<forall>r \<in> set (rows db). row_id r < MAX_ROWID)"

text \<open>The engine reports no failure of its own at a call.\<close>

definition healthy :: "faults \<Rightarrow> bool" where
  "healthy f =
     (open_err f = None \<and> prepare_err f = None \<and> exec_err f = None \<and> result_err f = None)"

text \<open>The id that a table with room gives its next row.\<close>

definition next_id :: "row list \<Rightarrow> int" where
  "next_id rs = (if rs = [] then 1 else Max (set (map row_id rs)) + 1)"

text \<open>The database that \<open>New\<close> makes of the empty one.\<close>

definition fresh_db :: database where
  "fresh_db = \<lparr>url_tbl = Some [], indexes = [autoindex]\<rparr>"

text \<open>An error value that carries the name of the operation in front of a wrapped cause.\<close>

fun has_context :: "string \<Rightarrow> error \<Rightarrow> bool" where
  "has_context name (Errorf p c) = (take (length name) p = name)"
| "has_context name e = False"

text \<open>A database with one record, and one whose table \<open>url\<close> was created without any index.\<close>

definition one_row_db :: database where
  "one_row_db = fresh_db\<lparr>url_tbl :=
     Some [\<lparr>row_id = 1, row_alias = ''ex1'', row_url = ''https://example.com''\<rparr>]\<rparr>"

definition table_without_index :: database where
  "table_without_index = \<lparr>url_tbl = Some [], indexes = []\<rparr>"

text \<open>An engine whose execution of the statement fails with \<open>SQLITE_IOERR\<close>.\<close>

definition io_failure :: faults where
  "io_failure = no_faults\<lparr>exec_err := Some (SqliteError 10 10)\<rparr>"

section \<open>Lemmas on the engine and the operations\<close>

lemma alias_unique_update [simp]: "alias_unique (db\<lparr>url_tbl := t\<rparr>) = alias_unique db"
  by (simp add: alias_unique_def)

lemma rows_Some: "url_tbl db = Some rs \<Longrightarrow> rows db = rs"
  by (simp add: rows_def)

lemma healthy_no_faults: "healthy no_faults"
  by (simp add: healthy_def no_faults_def)

lemma new_rowid_room:
  assumes "\<forall>r \<in> set rs. row_id r < MAX_ROWID"
  shows "new_rowid f rs = Inr (next_id rs)"
proof (cases "rs = []")
  case True
  then show ?thesis by (simp add: new_rowid_def next_id_def)
next
  case False
  then have "Max (set (map row_id rs)) \<in> set (map row_id rs)"
    using Max_in [of "set (map row_id rs)"] by simp
  with assms have "Max (set (map row_id rs)) < MAX_ROWID" by auto
  with False show ?thesis by (simp add: new_rowid_def next_id_def)
qed

lemma filter_fresh_alias:
  assumes "a \<notin> set (map row_alias rs)"
  shows "filter (\<lambda>r. row_alias r = a) rs = []" and "filter (\<lambda>r. row_alias r \<noteq> a) rs = rs"
  using assms by (auto simp: filter_empty_conv filter_id_conv)

lemma distinct_alias_count:
  assumes "distinct (map row_alias rs)" and "a \<in> set (map row_alias rs)"
  shows "length (filter (\<lambda>r. row_alias r = a) rs) = 1"
  using assms
proof (induction rs)
  case Nil
  then show ?case by simp
next
  case (Cons x rs)
  show ?case
  proof (cases "row_alias x = a")
    case True
    with Cons.prems(1) have "a \<notin> set (map row_alias rs)" by auto
    then have "filter (\<lambda>r. row_alias r = a) rs = []" by (rule filter_fresh_alias)
    with True show ?thesis by simp
  next
    case False
    with Cons show ?thesis by simp
  qed
qed

lemma SaveURL_fresh:
  assumes "url_tbl db = Some rs" and "a \<notin> set (map row_alias rs)" and "healthy f"
    and "\<forall>r \<in> set rs. row_id r < MAX_ROWID"
  shows "SaveURL f u a db =
    (Inr (next_id rs),
     db\<lparr>url_tbl := Some (rs @ [\<lparr>row_id = next_id rs, row_alias = a, row_url = u\<rparr>])\<rparr>)"
  using assms new_rowid_room [OF assms(4), of f]
  by (simp add: SaveURL_def prepare_def exec_insert_def healthy_def)

lemma SaveURL_live:
  assumes "url_tbl db = Some rs" and "alias_unique db" and "a \<in> set (map row_alias rs)"
    and "healthy f" and "\<forall>r \<in> set rs. row_id r < MAX_ROWID"
  shows "SaveURL f u a db = (Inl (Errorf (op_SaveURL @ '': '') ErrURLExists), db)"
  using assms new_rowid_room [OF assms(5), of f]
  by (simp add: SaveURL_def prepare_def exec_insert_def healthy_def)

lemma SaveURL_success:
  assumes "SaveURL f u a db = (Inr i, db')"
  shows "\<exists>rs. url_tbl db = Some rs \<and> (alias_unique db \<longrightarrow> a \<notin> set (map row_alias rs)) \<and>
    db' = db\<lparr>url_tbl := Some (rs @ [\<lparr>row_id = i, row_alias = a, row_url = u\<rparr>])\<rparr>"
  using assms
  by (auto simp: SaveURL_def prepare_def exec_insert_def
      split: option.splits sum.splits if_splits prod.splits)

lemma GetURL_found:
  assumes "url_tbl db = Some rs" and "healthy f"
    and "filter (\<lambda>r. row_alias r = a) rs = r # rest"
  shows "GetURL f a db = Inr (row_url r)"
  using assms by (simp add: GetURL_def prepare_def query_row_def healthy_def)

lemma GetURL_absent:
  assumes "url_tbl db = Some rs" and "healthy f" and "a \<notin> set (map row_alias rs)"
  shows "GetURL f a db = Inl ErrURLNotFound"
  using assms filter_fresh_alias(1) [OF assms(3)]
  by (simp add: GetURL_def prepare_def query_row_def healthy_def)

lemma DeleteURL_healthy:
  assumes "url_tbl db = Some rs" and "healthy f"
  shows "DeleteURL f a db =
    (Inr (int (length (filter (\<lambda>r. row_alias r = a) rs))),
     db\<lparr>url_tbl := Some (filter (\<lambda>r. row_alias r \<noteq> a) rs)\<rparr>)"
  using assms by (simp add: DeleteURL_def exec_delete_def healthy_def)

lemma fresh_db_facts:
  "url_tbl fresh_db = Some []" "alias_unique fresh_db" "initialised fresh_db"
  "rowid_room fresh_db" "invariant fresh_db" "\<not> live fresh_db a"
  by (simp_all add: fresh_db_def alias_unique_def autoindex_def initialised_def
      rowid_room_def rows_def invariant_def one_per_alias_def live_def)

lemma one_row_db_facts:
  "invariant one_row_db" "live one_row_db ''ex1''" "\<not> live one_row_db ''ex2''"
  "initialised one_row_db" "rowid_room one_row_db"
  by (simp_all add: one_row_db_def fresh_db_def alias_unique_def autoindex_def initialised_def
      rowid_room_def rows_def invariant_def one_per_alias_def live_def MAX_ROWID_def)

lemma initialised_tbl:
  assumes "initialised db"
  shows "url_tbl db = Some (rows db)" and "alias_unique db"
  using assms by (auto simp: initialised_def rows_def)

lemma save_then_get:
  assumes "initialised db" and "\<not> live db a" and "healthy f" and "healthy g"
    and "rowid_room db"
  shows "SaveURL f u a db =
      (Inr (next_id (rows db)),
       db\<lparr>url_tbl := Some (rows db @ [\<lparr>row_id = next_id (rows db), row_alias = a, row_url = u\<rparr>])\<rparr>)"
    and "GetURL g a
       (db\<lparr>url_tbl := Some (rows db @ [\<lparr>row_id = next_id (rows db), row_alias = a, row_url = u\<rparr>])\<rparr>)
       = Inr u"
proof -
  let ?r = "\<lparr>row_id = next_id (rows db), row_alias = a, row_url = u\<rparr>"
  have tbl: "url_tbl db = Some (rows db)" by (rule initialised_tbl(1) [OF assms(1)])
  have fresh: "a \<notin> set (map row_alias (rows db))" using assms(2) by (simp add: live_def)
  have room: "\<forall>r \<in> set (rows db). row_id r < MAX_ROWID"
    using assms(5) by (simp add: rowid_room_def)
  show "SaveURL f u a db = (Inr (next_id (rows db)), db\<lparr>url_tbl := Some (rows db @ [?r])\<rparr>)"
    by (rule SaveURL_fresh [OF tbl fresh assms(3) room])
  have "filter (\<lambda>r. row_alias r = a) (rows db @ [?r]) = [?r]"
    using filter_fresh_alias(1) [OF fresh] by simp
  then show "GetURL g a (db\<lparr>url_tbl := Some (rows db @ [?r])\<rparr>) = Inr u"
    using GetURL_found [of "db\<lparr>url_tbl := Some (rows db @ [?r])\<rparr>" "rows db @ [?r]" g a ?r "[]"]
      assms(4) by simp
qed

lemma GetURL_failure:
  assumes "GetURL g b d = Inl e"
  shows "e = ErrURLNotFound \<or>
    (\<exists>x. e = Errorf (op_GetURL @ '': prepare statement: '') (Engine x) \<and> prepare g d = Inl x) \<or>
    (\<exists>x. e = Errorf (op_GetURL @ '': execute statement: '') (Engine x) \<and> query_row g b d = Inl x
        \<and> x \<noteq> ErrNoRows)"
  using assms by (auto simp: GetURL_def split: sum.splits if_splits)

lemma SaveURL_failure:
  assumes "fst (SaveURL f u a db) = Inl e"
  shows "(e = Errorf (op_SaveURL @ '': '') ErrURLExists
          \<and> (\<exists>x. fst (exec_insert f u a db) = Inl x \<and> is_constraint_unique x))
    \<or> (\<exists>x. e = Errorf (op_SaveURL @ '': '') (Engine x)
          \<and> (prepare f db = Inl x \<or> fst (exec_insert f u a db) = Inl x))
    \<or> (\<exists>x. e = Errorf (op_SaveURL @ '': failed to get last insert id: '') (Engine x)
          \<and> result_err f = Some x)"
  using assms
  by (auto simp: SaveURL_def split: sum.splits prod.splits if_splits option.splits)

lemma DeleteURL_failure:
  assumes "fst (DeleteURL f a db) = Inl e"
  shows "(\<exists>x. e = Errorf (fn_DeleteURL @ '': execute statement '') (Engine x)
          \<and> fst (exec_delete f a db) = Inl x)
    \<or> (\<exists>x. e = Errorf (fn_DeleteURL @ '': get rows affected: '') (Engine x)
          \<and> result_err f = Some x)"
  using assms
  by (auto simp: DeleteURL_def split: sum.splits prod.splits option.splits)

lemma SaveURL_state:
  "snd (SaveURL f u a db) = db \<or>
   (\<exists>rs i. url_tbl db = Some rs \<and> (alias_unique db \<longrightarrow> a \<notin> set (map row_alias rs)) \<and>
      snd (SaveURL f u a db) =
        db\<lparr>url_tbl := Some (rs @ [\<lparr>row_id = i, row_alias = a, row_url = u\<rparr>])\<rparr>)"
  by (auto simp: SaveURL_def prepare_def exec_insert_def
      split: option.splits sum.splits if_splits prod.splits)

lemma DeleteURL_state:
  "snd (DeleteURL f a db) = db \<or>
   (\<exists>rs. url_tbl db = Some rs \<and>
      snd (DeleteURL f a db) = db\<lparr>url_tbl := Some (filter (\<lambda>r. row_alias r \<noteq> a) rs)\<rparr>)"
  by (auto simp: DeleteURL_def exec_delete_def split: option.splits)

lemma SaveURL_inv:
  assumes "invariant db"
  shows "invariant (snd (SaveURL f u a db))"
proof -
  from SaveURL_state [of f u a db] show ?thesis
  proof
    assume "snd (SaveURL f u a db) = db"
    with assms show ?thesis by simp
  next
    assume "\<exists>rs i. url_tbl db = Some rs \<and> (alias_unique db \<longrightarrow> a \<notin> set (map row_alias rs)) \<and>
      snd (SaveURL f u a db) =
        db\<lparr>url_tbl := Some (rs @ [\<lparr>row_id = i, row_alias = a, row_url = u\<rparr>])\<rparr>"
    then obtain rs i where tbl: "url_tbl db = Some rs"
      and fresh: "alias_unique db \<longrightarrow> a \<notin> set (map row_alias rs)"
      and st: "snd (SaveURL f u a db) =
        db\<lparr>url_tbl := Some (rs @ [\<lparr>row_id = i, row_alias = a, row_url = u\<rparr>])\<rparr>"
      by blast
    from assms tbl have "alias_unique db" and "distinct (map row_alias rs)"
      by (simp_all add: invariant_def initialised_def one_per_alias_def rows_def)
    with fresh show ?thesis
      by (simp add: st invariant_def initialised_def one_per_alias_def rows_def)
  qed
qed

lemma DeleteURL_inv:
  assumes "invariant db"
  shows "invariant (snd (DeleteURL f a db))"
proof -
  from DeleteURL_state [of f a db] show ?thesis
  proof
    assume "snd (DeleteURL f a db) = db"
    with assms show ?thesis by simp
  next
    assume "\<exists>rs. url_tbl db = Some rs \<and>
      snd (DeleteURL f a db) = db\<lparr>url_tbl := Some (filter (\<lambda>r. row_alias r \<noteq> a) rs)\<rparr>"
    then obtain rs where tbl: "url_tbl db = Some rs"
      and st: "snd (DeleteURL f a db) = db\<lparr>url_tbl := Some (filter (\<lambda>r. row_alias r \<noteq> a) rs)\<rparr>"
      by blast
    from assms tbl have "alias_unique db" and "distinct (map row_alias rs)"
      by (simp_all add: invariant_def initialised_def one_per_alias_def rows_def)
    then show ?thesis
      by (simp add: st invariant_def initialised_def one_per_alias_def rows_def distinct_map_filter)
  qed
qed

lemma step_inv: "invariant db \<Longrightarrow> invariant (step c db)"
  by (cases c) (simp_all add: SaveURL_inv DeleteURL_inv)

lemma New_healthy:
  assumes "healthy f"
  shows "New f db =
    (Inr (), if url_tbl db = None
             then db\<lparr>url_tbl := Some [], indexes := indexes db @ [autoindex]\<rparr> else db)"
  using assms
  by (auto simp: New_def healthy_def prepare_text_def schema_text_def exec_stmt_def
      split: option.splits)

lemma New_empty_inv:
  assumes "healthy f"
  shows "invariant (snd (New f empty_database))"
  by (simp add: New_healthy [OF assms] empty_database_def invariant_def initialised_def
      one_per_alias_def rows_def alias_unique_def autoindex_def)

lemma New_empty: "New no_faults empty_database = (Inr (), fresh_db)"
  by (simp add: New_def no_faults_def empty_database_def prepare_text_def schema_text_def
      exec_stmt_def fresh_db_def)

lemma not_found_iff_no_rows:
  "(\<exists>e. GetURL g b d = Inl e \<and> errors_Is e ErrURLNotFound)
     = (prepare g d = Inr () \<and> query_row g b d = Inl ErrNoRows)"
  by (auto simp: GetURL_def split: sum.splits if_splits)

lemma GetURL_prepare_fault:
  assumes "prepare_err g = Some x"
  shows "GetURL g b d = Inl (Errorf ''storage.sqlite.GetURL: prepare statement: '' (Engine x))"
  using assms by (simp add: GetURL_def prepare_def op_GetURL_def)

lemma GetURL_no_table:
  assumes "prepare_err g = None" and "url_tbl d = None"
  shows "GetURL g b d =
    Inl (Errorf ''storage.sqlite.GetURL: prepare statement: '' (Engine no_such_table))"
  using assms by (simp add: GetURL_def prepare_def op_GetURL_def)

lemma GetURL_exec_fault:
  assumes "prepare_err g = None" and "url_tbl d \<noteq> None" and "exec_err g = Some x"
    and "x \<noteq> ErrNoRows"
  shows "GetURL g b d = Inl (Errorf ''storage.sqlite.GetURL: execute statement: '' (Engine x))"
  using assms by (auto simp: GetURL_def prepare_def query_row_def op_GetURL_def)

lemma GetURL_live:
  assumes "healthy g" and "initialised d" and "live d b"
  shows "\<exists>u. GetURL g b d = Inr u"
proof -
  have tbl: "url_tbl d = Some (rows d)" by (rule initialised_tbl(1) [OF assms(2)])
  from assms(3) have "filter (\<lambda>r. row_alias r = b) (rows d) \<noteq> []"
    by (auto simp: live_def filter_empty_conv)
  then obtain r rest where "filter (\<lambda>r. row_alias r = b) (rows d) = r # rest"
    by (cases "filter (\<lambda>r. row_alias r = b) (rows d)") auto
  from GetURL_found [OF tbl assms(1) this] show ?thesis by blast
qed

lemma not_found_iff_not_live:
  assumes "healthy g" and "initialised d"
  shows "(GetURL g b d = Inl ErrURLNotFound) = (\<not> live d b)"
proof
  assume nf: "GetURL g b d = Inl ErrURLNotFound"
  show "\<not> live d b"
  proof
    assume "live d b"
    from GetURL_live [OF assms this] nf show False by auto
  qed
next
  assume "\<not> live d b"
  then have "b \<notin> set (map row_alias (rows d))" by (simp add: live_def)
  from GetURL_absent [OF initialised_tbl(1) [OF assms(2)] assms(1) this]
  show "GetURL g b d = Inl ErrURLNotFound" .
qed

section \<open>The claims\<close>

text \<open>
  Claim C1. After a successful \<open>SaveURL(u1, a)\<close> on a database whose \<open>alias\<close> column has
  its unique index, a following \<open>SaveURL(u2, a)\<close> on the state the first one left (the
  engine reporting no failure of its own, the largest id below the largest 64-bit integer)
  fails with \<open>storage.ErrURLExists\<close> wrapped under the operation's name, which
  \<open>errors.Is\<close> recognises and which holds no error of the engine; it leaves the database
  as it was, and \<open>GetURL(a)\<close> afterwards returns \<open>u1\<close>.
\<close>

theorem SaveURL_existing_alias:
  assumes "alias_unique db" and "SaveURL f1 u1 a db = (Inr i, db1)"
    and "healthy f2" and "healthy f3" and "rowid_room db1"
  shows "fst (SaveURL f2 u2 a db1) = Inl (Errorf ''storage.sqlite.SaveURL: '' ErrURLExists)
    \<and> errors_Is (Errorf ''storage.sqlite.SaveURL: '' ErrURLExists) ErrURLExists
    \<and> (\<forall>e. \<not> errors_Is (Errorf ''storage.sqlite.SaveURL: '' ErrURLExists) (Engine e))
    \<and> snd (SaveURL f2 u2 a db1) = db1
    \<and> GetURL f3 a (snd (SaveURL f2 u2 a db1)) = Inr u1"
proof -
  from SaveURL_success [OF assms(2)] assms(1) obtain rs where
    tbl: "url_tbl db = Some rs" and fresh: "a \<notin> set (map row_alias rs)" and
    db1: "db1 = db\<lparr>url_tbl := Some (rs @ [\<lparr>row_id = i, row_alias = a, row_url = u1\<rparr>])\<rparr>"
    by blast
  let ?rs1 = "rs @ [\<lparr>row_id = i, row_alias = a, row_url = u1\<rparr>]"
  have tbl1: "url_tbl db1 = Some ?rs1" by (simp add: db1)
  have uniq1: "alias_unique db1" using assms(1) by (simp add: db1)
  have room: "\<forall>r \<in> set ?rs1. row_id r < MAX_ROWID"
    using assms(5) by (simp add: rowid_room_def rows_Some [OF tbl1])
  have live1: "a \<in> set (map row_alias ?rs1)" by simp
  have save2: "SaveURL f2 u2 a db1 = (Inl (Errorf (op_SaveURL @ '': '') ErrURLExists), db1)"
    by (rule SaveURL_live [OF tbl1 uniq1 live1 assms(3) room])
  have "filter (\<lambda>r. row_alias r = a) ?rs1 = [\<lparr>row_id = i, row_alias = a, row_url = u1\<rparr>]"
    using filter_fresh_alias(1) [OF fresh] by simp
  then have get: "GetURL f3 a db1 = Inr u1"
    using GetURL_found [OF tbl1 assms(4), of a] by simp
  from save2 get show ?thesis by (simp add: op_SaveURL_def)
qed

theorem SaveURL_existing_alias_witness:
  "alias_unique fresh_db
   \<and> SaveURL no_faults ''https://example.com'' ''ex1'' fresh_db =
       (Inr 1, fresh_db\<lparr>url_tbl := Some [\<lparr>row_id = 1, row_alias = ''ex1'', row_url = ''https://example.com''\<rparr>]\<rparr>)
   \<and> fst (SaveURL no_faults ''https://other.com'' ''ex1''
        (fresh_db\<lparr>url_tbl := Some [\<lparr>row_id = 1, row_alias = ''ex1'', row_url = ''https://example.com''\<rparr>]\<rparr>))
       = Inl (Errorf ''storage.sqlite.SaveURL: '' ErrURLExists)
   \<and> GetURL no_faults ''ex1'' (snd (SaveURL no_faults ''https://other.com'' ''ex1''
        (fresh_db\<lparr>url_tbl := Some [\<lparr>row_id = 1, row_alias = ''ex1'', row_url = ''https://example.com''\<rparr>]\<rparr>)))
       = Inr ''https://example.com''"
proof -
  let ?db1 = "fresh_db\<lparr>url_tbl := Some [\<lparr>row_id = 1, row_alias = ''ex1'', row_url = ''https://example.com''\<rparr>]\<rparr>"
  have h1: "alias_unique fresh_db"
    by (simp add: alias_unique_def fresh_db_def autoindex_def)
  have h2: "SaveURL no_faults ''https://example.com'' ''ex1'' fresh_db = (Inr 1, ?db1)"
    by (simp add: SaveURL_def prepare_def exec_insert_def new_rowid_def no_faults_def
        fresh_db_def alias_unique_def autoindex_def)
  have h3: "healthy no_faults" by (rule healthy_no_faults)
  have h4: "rowid_room ?db1" by (simp add: rowid_room_def rows_def fresh_db_def MAX_ROWID_def)
  from SaveURL_existing_alias [OF h1 h2 h3 h3 h4, of "''https://other.com''"] h1 h2
  show ?thesis by blast
qed

text \<open>
  Claim C2. For every non-empty target \<open>u\<close> and non-empty alias \<open>a\<close> that has no live
  record in an initialised database (the engine reporting no failure of its own, the
  largest id below the largest 64-bit integer), \<open>SaveURL(u, a)\<close> succeeds and a following
  \<open>GetURL(a)\<close> returns exactly \<open>u\<close>.
\<close>

theorem SaveURL_GetURL_roundtrip:
  assumes "u \<noteq> []" and "a \<noteq> []" and "initialised db" and "\<not> live db a"
    and "healthy f" and "healthy g" and "rowid_room db"
  shows "(\<exists>i. fst (SaveURL f u a db) = Inr i)
    \<and> GetURL g a (snd (SaveURL f u a db)) = Inr u"
  using save_then_get [OF assms(3-7), of u] by simp

theorem SaveURL_GetURL_roundtrip_witness:
  "''https://example.com'' \<noteq> [] \<and> ''ex1'' \<noteq> [] \<and> initialised fresh_db
   \<and> \<not> live fresh_db ''ex1'' \<and> healthy no_faults \<and> rowid_room fresh_db
   \<and> fst (SaveURL no_faults ''https://example.com'' ''ex1'' fresh_db) = Inr 1
   \<and> GetURL no_faults ''ex1'' (snd (SaveURL no_faults ''https://example.com'' ''ex1'' fresh_db))
       = Inr ''https://example.com''"
proof -
  have ne: "''https://example.com'' \<noteq> []" "''ex1'' \<noteq> []" by simp_all
  have s: "fst (SaveURL no_faults ''https://example.com'' ''ex1'' fresh_db) = Inr 1"
    by (simp add: SaveURL_def prepare_def exec_insert_def new_rowid_def no_faults_def
        fresh_db_def alias_unique_def autoindex_def)
  from SaveURL_GetURL_roundtrip [OF ne fresh_db_facts(3) fresh_db_facts(6) healthy_no_faults
      healthy_no_faults fresh_db_facts(4)]
    ne fresh_db_facts(3,4,6) healthy_no_faults s
  show ?thesis by blast
qed

text \<open>
  Claim C3. In a database that satisfies the invariant, with the engine reporting no
  failure of its own: \<open>DeleteURL(a)\<close> for an alias with no live record succeeds with
  count 0 and changes nothing; for an alias with a live record it succeeds with count 1
  and a following \<open>GetURL(a)\<close> fails with \<open>storage.ErrURLNotFound\<close>; in both cases the
  alias has no live record afterwards.
\<close>

theorem DeleteURL_idempotent:
  assumes "invariant db" and "healthy f" and "healthy g"
  shows "(\<not> live db a \<longrightarrow> DeleteURL f a db = (Inr 0, db))
    \<and> (live db a \<longrightarrow> fst (DeleteURL f a db) = Inr 1
           \<and> GetURL g a (snd (DeleteURL f a db)) = Inl ErrURLNotFound)
    \<and> \<not> live (snd (DeleteURL f a db)) a"
proof (intro conjI)
  from assms(1) have init: "initialised db" and dist: "distinct (map row_alias (rows db))"
    by (simp_all add: invariant_def one_per_alias_def)
  have tbl: "url_tbl db = Some (rows db)" by (rule initialised_tbl(1) [OF init])
  note del = DeleteURL_healthy [OF tbl assms(2), of a]
  show "\<not> live db a \<longrightarrow> DeleteURL f a db = (Inr 0, db)"
  proof
    assume "\<not> live db a"
    then have fresh: "a \<notin> set (map row_alias (rows db))" by (simp add: live_def)
    have "db\<lparr>url_tbl := Some (rows db)\<rparr> = db" using tbl by simp
    with del filter_fresh_alias [OF fresh] show "DeleteURL f a db = (Inr 0, db)" by simp
  qed
  show "live db a \<longrightarrow> fst (DeleteURL f a db) = Inr 1
           \<and> GetURL g a (snd (DeleteURL f a db)) = Inl ErrURLNotFound"
  proof
    assume "live db a"
    then have "a \<in> set (map row_alias (rows db))" by (simp add: live_def)
    from distinct_alias_count [OF dist this] del
    have one: "fst (DeleteURL f a db) = Inr 1" by simp
    let ?db' = "db\<lparr>url_tbl := Some (filter (\<lambda>r. row_alias r \<noteq> a) (rows db))\<rparr>"
    have "a \<notin> set (map row_alias (filter (\<lambda>r. row_alias r \<noteq> a) (rows db)))" by auto
    then have "GetURL g a ?db' = Inl ErrURLNotFound"
      using GetURL_absent [of ?db' "filter (\<lambda>r. row_alias r \<noteq> a) (rows db)" g a] assms(3)
      by simp
    with one del show "fst (DeleteURL f a db) = Inr 1
           \<and> GetURL g a (snd (DeleteURL f a db)) = Inl ErrURLNotFound" by simp
  qed
  have "rows (snd (DeleteURL f a db)) = filter (\<lambda>r. row_alias r \<noteq> a) (rows db)"
    using del by (simp add: rows_Some)
  then show "\<not> live (snd (DeleteURL f a db)) a"
    by (auto simp: live_def)
qed

theorem DeleteURL_idempotent_witness:
  "invariant one_row_db \<and> healthy no_faults
   \<and> \<not> live one_row_db ''ex2'' \<and> DeleteURL no_faults ''ex2'' one_row_db = (Inr 0, one_row_db)
   \<and> live one_row_db ''ex1'' \<and> fst (DeleteURL no_faults ''ex1'' one_row_db) = Inr 1
   \<and> GetURL no_faults ''ex1'' (snd (DeleteURL no_faults ''ex1'' one_row_db)) = Inl ErrURLNotFound"
  using DeleteURL_idempotent [OF one_row_db_facts(1) healthy_no_faults healthy_no_faults, of "''ex1''"]
    DeleteURL_idempotent [OF one_row_db_facts(1) healthy_no_faults healthy_no_faults, of "''ex2''"]
    one_row_db_facts(1-3) healthy_no_faults
  by blast

text \<open>
  Claim C4. For an alias with no live record in an initialised database, \<open>GetURL\<close> fails
  with \<open>storage.ErrURLNotFound\<close>. A caller can tell this from a failure of the storage:
  on any database and under any behaviour of the engine, the error of \<open>GetURL\<close> is
  \<open>storage.ErrURLNotFound\<close> (for \<open>errors.Is\<close>) exactly when the statement was compiled
  and the engine reported no row. A failure of \<open>Prepare\<close>, a missing table and a failure
  of the query other than \<open>sql.ErrNoRows\<close> each give the engine's error wrapped by
  \<open>fmt.Errorf\<close>, which \<open>errors.Is\<close> tells apart from the sentinel. With an engine that
  reports no failure on an initialised database, \<open>GetURL\<close> answers
  \<open>storage.ErrURLNotFound\<close> exactly for the aliases with no live record, and returns a
  target for a live alias.
\<close>

theorem GetURL_not_found:
  assumes "initialised db" and "\<not> live db a" and "healthy f"
  shows "GetURL f a db = Inl ErrURLNotFound
    \<and> (\<forall>g b d. (\<exists>e. GetURL g b d = Inl e \<and> errors_Is e ErrURLNotFound)
          = (prepare g d = Inr () \<and> query_row g b d = Inl ErrNoRows))
    \<and> (\<forall>g b d x. prepare_err g = Some x \<longrightarrow>
          GetURL g b d = Inl (Errorf ''storage.sqlite.GetURL: prepare statement: '' (Engine x)))
    \<and> (\<forall>g b d. prepare_err g = None \<and> url_tbl d = None \<longrightarrow>
          GetURL g b d =
            Inl (Errorf ''storage.sqlite.GetURL: prepare statement: '' (Engine no_such_table)))
    \<and> (\<forall>g b d x. prepare_err g = None \<and> url_tbl d \<noteq> None \<and> exec_err g = Some x
            \<and> x \<noteq> ErrNoRows \<longrightarrow>
          GetURL g b d = Inl (Errorf ''storage.sqlite.GetURL: execute statement: '' (Engine x)))
    \<and> (\<forall>g b d. healthy g \<and> initialised d \<longrightarrow>
          (GetURL g b d = Inl ErrURLNotFound) = (\<not> live d b)
          \<and> (live d b \<longrightarrow> (\<exists>u. GetURL g b d = Inr u)))
    \<and> (\<forall>g b d e. GetURL g b d = Inl e \<and> e \<noteq> ErrURLNotFound \<longrightarrow>
          (\<exists>p x. e = Errorf p (Engine x)) \<and> \<not> errors_Is e ErrURLNotFound)"
proof -
  have 1: "GetURL f a db = Inl ErrURLNotFound"
    using not_found_iff_not_live [OF assms(3) assms(1), of a] assms(2) by simp
  have 7: "(\<exists>p x. e = Errorf p (Engine x)) \<and> \<not> errors_Is e ErrURLNotFound"
    if "GetURL g b d = Inl e \<and> e \<noteq> ErrURLNotFound" for g b d e
  proof -
    from that GetURL_failure [of g b d e] obtain p x where e: "e = Errorf p (Engine x)"
      by blast
    then show ?thesis by simp
  qed
  show ?thesis
    using 1 7 not_found_iff_no_rows GetURL_prepare_fault GetURL_no_table GetURL_exec_fault
      GetURL_live not_found_iff_not_live
    by (intro conjI allI impI) (blast | simp)+
qed

theorem GetURL_not_found_witness:
  "initialised fresh_db \<and> \<not> live fresh_db ''ex1'' \<and> healthy no_faults
   \<and> GetURL no_faults ''ex1'' fresh_db = Inl ErrURLNotFound
   \<and> GetURL io_failure ''ex1'' fresh_db =
        Inl (Errorf ''storage.sqlite.GetURL: execute statement: '' (Engine (SqliteError 10 10)))
   \<and> \<not> errors_Is (Errorf ''storage.sqlite.GetURL: execute statement: '' (Engine (SqliteError 10 10)))
         ErrURLNotFound
   \<and> GetURL no_faults ''ex1'' empty_database =
        Inl (Errorf ''storage.sqlite.GetURL: prepare statement: '' (Engine no_such_table))
   \<and> initialised one_row_db \<and> live one_row_db ''ex1''
   \<and> GetURL no_faults ''ex1'' one_row_db \<noteq> Inl ErrURLNotFound
   \<and> (\<exists>u. GetURL no_faults ''ex1'' one_row_db = Inr u)"
proof -
  note t = GetURL_not_found [OF fresh_db_facts(3) fresh_db_facts(6) healthy_no_faults, of "''ex1''"]
  have io: "prepare_err io_failure = None \<and> url_tbl fresh_db \<noteq> None
      \<and> exec_err io_failure = Some (SqliteError 10 10) \<and> SqliteError 10 10 \<noteq> ErrNoRows"
    by (simp add: io_failure_def no_faults_def fresh_db_def)
  have nt: "prepare_err no_faults = None \<and> url_tbl empty_database = None"
    by (simp add: no_faults_def empty_database_def)
  from t have 1: "GetURL no_faults ''ex1'' fresh_db = Inl ErrURLNotFound" by blast
  from t io have 2: "GetURL io_failure ''ex1'' fresh_db =
      Inl (Errorf ''storage.sqlite.GetURL: execute statement: '' (Engine (SqliteError 10 10)))"
    by blast
  have ne: "Errorf ''storage.sqlite.GetURL: execute statement: '' (Engine (SqliteError 10 10))
      \<noteq> ErrURLNotFound" by simp
  from t 2 ne have 3: "\<not> errors_Is
      (Errorf ''storage.sqlite.GetURL: execute statement: '' (Engine (SqliteError 10 10)))
      ErrURLNotFound" by blast
  from t nt have 4: "GetURL no_faults ''ex1'' empty_database =
      Inl (Errorf ''storage.sqlite.GetURL: prepare statement: '' (Engine no_such_table))"
    by blast
  have hl: "healthy no_faults \<and> initialised one_row_db"
    using healthy_no_faults one_row_db_facts(4) by simp
  from t hl one_row_db_facts(2)
  have 5: "GetURL no_faults ''ex1'' one_row_db \<noteq> Inl ErrURLNotFound" by blast
  from t hl one_row_db_facts(2)
  have 6: "\<exists>u. GetURL no_faults ''ex1'' one_row_db = Inr u" by blast
  from 1 2 3 4 5 6 fresh_db_facts(3) fresh_db_facts(6) [of "''ex1''"] healthy_no_faults
    one_row_db_facts(2,4)
  show ?thesis by blast
qed

text \<open>
  Claim C5 says that the two ids of \<open>SaveURL(u1, a)\<close>, \<open>DeleteURL(a)\<close>, \<open>SaveURL(u2, a)\<close>
  differ. On the database that \<open>New\<close> makes of the empty one both calls return id 1: the
  column is \<open>id INTEGER PRIMARY KEY\<close> without \<open>AUTOINCREMENT\<close>, so the engine gives a new
  row one more than the largest id that is left.
\<close>

theorem id_reused_after_delete:
  "fst (SaveURL no_faults ''https://example.com'' ''ex1'' (snd (New no_faults empty_database)))
     = Inr 1
   \<and> fst (DeleteURL no_faults ''ex1''
        (snd (SaveURL no_faults ''https://example.com'' ''ex1'' (snd (New no_faults empty_database)))))
     = Inr 1
   \<and> fst (SaveURL no_faults ''https://other.com'' ''ex1''
        (snd (DeleteURL no_faults ''ex1''
          (snd (SaveURL no_faults ''https://example.com'' ''ex1''
            (snd (New no_faults empty_database)))))))
     = Inr 1"
  unfolding New_empty snd_conv
  by (simp add: SaveURL_def DeleteURL_def prepare_def exec_insert_def exec_delete_def
      new_rowid_def no_faults_def fresh_db_def alias_unique_def autoindex_def)

text \<open>
  Claim C5, amended. For every alias \<open>a\<close> with no live record in an initialised database and
  all targets \<open>u1\<close>, \<open>u2\<close> (the engine reporting no failure of its own, the largest id
  below the largest 64-bit integer): \<open>SaveURL(u1, a)\<close>, \<open>DeleteURL(a)\<close> and
  \<open>SaveURL(u2, a)\<close> all succeed, the deletion removes one record and restores the database,
  a following \<open>GetURL(a)\<close> returns \<open>u2\<close>, and the two \<open>SaveURL\<close> calls return the same id.
\<close>

theorem save_delete_save:
  assumes "initialised db" and "\<not> live db a" and "healthy f1" and "healthy f2"
    and "healthy f3" and "healthy f4" and "rowid_room db"
  shows "\<exists>i d1 d3. SaveURL f1 u1 a db = (Inr i, d1) \<and> DeleteURL f2 a d1 = (Inr 1, db)
    \<and> SaveURL f3 u2 a db = (Inr i, d3) \<and> GetURL f4 a d3 = Inr u2"
proof -
  let ?i = "next_id (rows db)"
  let ?d1 = "db\<lparr>url_tbl := Some (rows db @ [\<lparr>row_id = ?i, row_alias = a, row_url = u1\<rparr>])\<rparr>"
  let ?d3 = "db\<lparr>url_tbl := Some (rows db @ [\<lparr>row_id = ?i, row_alias = a, row_url = u2\<rparr>])\<rparr>"
  have tbl: "url_tbl db = Some (rows db)" by (rule initialised_tbl(1) [OF assms(1)])
  from assms(2) have fresh: "a \<notin> set (map row_alias (rows db))" by (simp add: live_def)
  have s1: "SaveURL f1 u1 a db = (Inr ?i, ?d1)"
    by (rule save_then_get(1) [OF assms(1,2,3,3,7)])
  have s3: "SaveURL f3 u2 a db = (Inr ?i, ?d3)"
    by (rule save_then_get(1) [OF assms(1,2,5,5,7)])
  have g: "GetURL f4 a ?d3 = Inr u2"
    by (rule save_then_get(2) [OF assms(1,2,6,6,7)])
  have "db\<lparr>url_tbl := Some (rows db)\<rparr> = db" using tbl by simp
  then have d: "DeleteURL f2 a ?d1 = (Inr 1, db)"
    using DeleteURL_healthy [of ?d1 _ f2 a] assms(4) filter_fresh_alias [OF fresh] by simp
  from s1 d s3 g show ?thesis by blast
qed

theorem save_delete_save_witness:
  "initialised fresh_db \<and> \<not> live fresh_db ''ex1'' \<and> healthy no_faults \<and> rowid_room fresh_db
   \<and> (\<exists>i d1 d3. SaveURL no_faults ''https://example.com'' ''ex1'' fresh_db = (Inr i, d1)
        \<and> DeleteURL no_faults ''ex1'' d1 = (Inr 1, fresh_db)
        \<and> SaveURL no_faults ''https://other.com'' ''ex1'' fresh_db = (Inr i, d3)
        \<and> GetURL no_faults ''ex1'' d3 = Inr ''https://other.com'')"
  using save_delete_save [OF fresh_db_facts(3) fresh_db_facts(6) healthy_no_faults
      healthy_no_faults healthy_no_faults healthy_no_faults fresh_db_facts(4),
      where a = "''ex1''" and ?u1.0 = "''https://example.com''" and ?u2.0 = "''https://other.com''"]
    fresh_db_facts(3,4) fresh_db_facts(6) [of "''ex1''"] healthy_no_faults
  by blast

text \<open>
  Claim C6 says that \<open>New\<close>, when it returns without error, has ensured that the index on
  column \<open>alias\<close> exists, creating it if absent. \<open>New\<close> runs the first statement of its
  text only. On a database whose table \<open>url\<close> exists without an index on \<open>alias\<close> it
  returns without error and changes nothing, so no index on \<open>alias\<close> exists afterwards.
  On the empty database it creates the table, whose \<open>UNIQUE\<close> constraint brings the
  automatic index, and no index named \<open>idx_alias\<close>.
\<close>

theorem New_creates_no_index:
  "New no_faults table_without_index = (Inr (), table_without_index)
   \<and> \<not> alias_indexed table_without_index
   \<and> New no_faults empty_database = (Inr (), fresh_db)
   \<and> indexes fresh_db = [autoindex]
   \<and> ''idx_alias'' \<notin> set (map idx_name (indexes fresh_db))"
  by (simp add: New_def no_faults_def empty_database_def prepare_text_def schema_text_def
      exec_stmt_def fresh_db_def table_without_index_def alias_indexed_def autoindex_def)

text \<open>
  Claim C7. The invariant (table \<open>url\<close> exists with the unique index of its \<open>alias\<close>
  column, and no two rows share an alias) is kept by every sequence of \<open>SaveURL\<close>,
  \<open>GetURL\<close> and \<open>DeleteURL\<close> calls, under any behaviour of the engine at each call: at most
  one live record for each alias.
\<close>

theorem one_live_record_per_alias:
  assumes "invariant db"
  shows "invariant (run cs db) \<and> distinct (map row_alias (rows (run cs db)))"
proof -
  from assms have "invariant (run cs db)"
  proof (induction cs arbitrary: db)
    case Nil
    then show ?case by simp
  next
    case (Cons c cs)
    from Cons.prems have "invariant (step c db)" by (rule step_inv)
    then have "invariant (run cs (step c db))" by (rule Cons.IH)
    then show ?case by simp
  qed
  then show ?thesis by (simp add: invariant_def one_per_alias_def)
qed

theorem one_live_record_per_alias_witness:
  "invariant fresh_db
   \<and> invariant (run [Save no_faults ''https://example.com'' ''ex1'',
               Save no_faults ''https://other.com'' ''ex1'',
               Get no_faults ''ex1'',
               Delete no_faults ''ex1'',
               Save no_faults ''https://other.com'' ''ex1''] fresh_db)
   \<and> rows (run [Save no_faults ''https://example.com'' ''ex1'',
               Save no_faults ''https://other.com'' ''ex1'',
               Get no_faults ''ex1'',
               Delete no_faults ''ex1'',
               Save no_faults ''https://other.com'' ''ex1''] fresh_db)
       = [\<lparr>row_id = 1, row_alias = ''ex1'', row_url = ''https://other.com''\<rparr>]"
proof -
  have r: "rows (run [Save no_faults ''https://example.com'' ''ex1'',
               Save no_faults ''https://other.com'' ''ex1'',
               Get no_faults ''ex1'',
               Delete no_faults ''ex1'',
               Save no_faults ''https://other.com'' ''ex1''] fresh_db)
       = [\<lparr>row_id = 1, row_alias = ''ex1'', row_url = ''https://other.com''\<rparr>]"
    by (simp add: SaveURL_def DeleteURL_def prepare_def exec_insert_def exec_delete_def
      new_rowid_def no_faults_def fresh_db_def alias_unique_def autoindex_def rows_def
      ErrConstraintUnique_def)
  from one_live_record_per_alias [OF fresh_db_facts(5)] fresh_db_facts(5) r
  show ?thesis by blast
qed

text \<open>
  Claim C8 says that every error of the three operations carries the name of the
  operation and wraps its cause, the not-found branch of \<open>GetURL\<close> included. That branch
  returns \<open>storage.ErrURLNotFound\<close> itself: no operation name, nothing wrapped.
\<close>

theorem not_found_branch_is_bare:
  "GetURL no_faults ''ex1'' (snd (New no_faults empty_database)) = Inl ErrURLNotFound
   \<and> \<not> has_context op_GetURL ErrURLNotFound
   \<and> errors_Unwrap ErrURLNotFound = None"
  unfolding New_empty snd_conv
  by (simp add: GetURL_def prepare_def query_row_def no_faults_def fresh_db_def)

text \<open>
  Claim C8, amended. Every error of \<open>SaveURL\<close> and of \<open>DeleteURL\<close>, and every error of
  \<open>GetURL\<close> but that of its not-found branch, is a \<open>fmt.Errorf\<close> value that starts with the
  name of the operation and wraps its cause: the error that the engine returned at the
  failing call, or \<open>storage.ErrURLExists\<close> where the engine reported the violation of the
  unique constraint. The not-found branch of \<open>GetURL\<close>, taken when the engine reports no
  row, returns \<open>storage.ErrURLNotFound\<close> unwrapped.
\<close>

theorem errors_carry_context:
  "(fst (SaveURL f u a db) = Inl e \<longrightarrow>
      has_context op_SaveURL e
      \<and> ((errors_Unwrap e = Some ErrURLExists
            \<and> (\<exists>x. fst (exec_insert f u a db) = Inl x \<and> is_constraint_unique x))
          \<or> (\<exists>x. errors_Unwrap e = Some (Engine x)
                \<and> (prepare f db = Inl x \<or> fst (exec_insert f u a db) = Inl x
                    \<or> result_err f = Some x))))
   \<and> (GetURL f a db = Inl e \<longrightarrow>
        (e = ErrURLNotFound \<and> query_row f a db = Inl ErrNoRows)
        \<or> (has_context op_GetURL e
            \<and> (\<exists>x. errors_Unwrap e = Some (Engine x)
                  \<and> (prepare f db = Inl x \<or> query_row f a db = Inl x))))
   \<and> (fst (DeleteURL f a db) = Inl e \<longrightarrow>
        has_context fn_DeleteURL e
        \<and> (\<exists>x. errors_Unwrap e = Some (Engine x)
              \<and> (fst (exec_delete f a db) = Inl x \<or> result_err f = Some x)))"
proof -
  have s: "has_context op_SaveURL e
      \<and> ((errors_Unwrap e = Some ErrURLExists
            \<and> (\<exists>x. fst (exec_insert f u a db) = Inl x \<and> is_constraint_unique x))
          \<or> (\<exists>x. errors_Unwrap e = Some (Engine x)
                \<and> (prepare f db = Inl x \<or> fst (exec_insert f u a db) = Inl x
                    \<or> result_err f = Some x)))"
    if "fst (SaveURL f u a db) = Inl e"
    using SaveURL_failure [OF that] by (elim disjE exE conjE) simp_all
  have g: "(e = ErrURLNotFound \<and> query_row f a db = Inl ErrNoRows)
        \<or> (has_context op_GetURL e
            \<and> (\<exists>x. errors_Unwrap e = Some (Engine x)
                  \<and> (prepare f db = Inl x \<or> query_row f a db = Inl x)))"
    if "GetURL f a db = Inl e"
    using that by (auto simp: GetURL_def split: sum.splits if_splits)
  have d: "has_context fn_DeleteURL e
        \<and> (\<exists>x. errors_Unwrap e = Some (Engine x)
              \<and> (fst (exec_delete f a db) = Inl x \<or> result_err f = Some x))"
    if "fst (DeleteURL f a db) = Inl e"
    using DeleteURL_failure [OF that] by (elim disjE exE conjE) simp_all
  from s g d show ?thesis by blast
qed

theorem errors_carry_context_witness:
  "fst (SaveURL no_faults ''https://other.com'' ''ex1'' one_row_db)
      = Inl (Errorf ''storage.sqlite.SaveURL: '' ErrURLExists)
   \<and> has_context op_SaveURL (Errorf ''storage.sqlite.SaveURL: '' ErrURLExists)
   \<and> GetURL no_faults ''ex1'' empty_database
      = Inl (Errorf ''storage.sqlite.GetURL: prepare statement: '' (Engine no_such_table))
   \<and> has_context op_GetURL
        (Errorf ''storage.sqlite.GetURL: prepare statement: '' (Engine no_such_table))
   \<and> fst (DeleteURL no_faults ''ex1'' empty_database)
      = Inl (Errorf ''storage.sqlite.DeleteURL: execute statement '' (Engine no_such_table))
   \<and> has_context fn_DeleteURL
        (Errorf ''storage.sqlite.DeleteURL: execute statement '' (Engine no_such_table))"
proof -
  let ?es = "Errorf ''storage.sqlite.SaveURL: '' ErrURLExists"
  let ?eg = "Errorf ''storage.sqlite.GetURL: prepare statement: '' (Engine no_such_table)"
  let ?ed = "Errorf ''storage.sqlite.DeleteURL: execute statement '' (Engine no_such_table)"
  have s: "fst (SaveURL no_faults ''https://other.com'' ''ex1'' one_row_db) = Inl ?es"
    by (simp add: SaveURL_def prepare_def exec_insert_def new_rowid_def no_faults_def
        one_row_db_def fresh_db_def alias_unique_def autoindex_def MAX_ROWID_def
        ErrConstraintUnique_def op_SaveURL_def)
  have g: "GetURL no_faults ''ex1'' empty_database = Inl ?eg"
    by (simp add: GetURL_def prepare_def no_faults_def empty_database_def op_GetURL_def)
  have d: "fst (DeleteURL no_faults ''ex1'' empty_database) = Inl ?ed"
    by (simp add: DeleteURL_def exec_delete_def no_faults_def empty_database_def
        fn_DeleteURL_def)
  have ne: "?eg \<noteq> ErrURLNotFound" by simp
  from errors_carry_context [of no_faults "''https://other.com''" "''ex1''" one_row_db ?es] s
  have 1: "has_context op_SaveURL ?es" by blast
  from errors_carry_context [of no_faults _ "''ex1''" empty_database ?eg] g ne
  have 2: "has_context op_GetURL ?eg" by blast
  from errors_carry_context [of no_faults _ "''ex1''" empty_database ?ed] d
  have 3: "has_context fn_DeleteURL ?ed" by blast
  from s g d 1 2 3 show ?thesis by blast
qed

text \<open>
  Claim C10. \<open>SaveURL\<close> checks neither argument for emptiness: with an empty target or an
  empty alias that has no live record in an initialised database (the engine reporting no
  failure of its own, the largest id below the largest 64-bit integer) it inserts the row
  and succeeds, the alias is live afterwards and \<open>GetURL\<close> of it returns the target.
\<close>

theorem SaveURL_accepts_empty:
  assumes "u = [] \<or> a = []" and "initialised db" and "\<not> live db a"
    and "healthy f" and "healthy g" and "rowid_room db"
  shows "\<exists>i. SaveURL f u a db =
        (Inr i, db\<lparr>url_tbl := Some (rows db @ [\<lparr>row_id = i, row_alias = a, row_url = u\<rparr>])\<rparr>)
      \<and> live (snd (SaveURL f u a db)) a
      \<and> GetURL g a (snd (SaveURL f u a db)) = Inr u"
proof -
  note s = save_then_get [OF assms(2-6), of u]
  have "live (db\<lparr>url_tbl := Some (rows db @
      [\<lparr>row_id = next_id (rows db), row_alias = a, row_url = u\<rparr>])\<rparr>) a"
    by (simp add: live_def rows_def)
  with s show ?thesis by simp
qed

theorem SaveURL_accepts_empty_witness:
  "initialised fresh_db \<and> \<not> live fresh_db [] \<and> healthy no_faults \<and> rowid_room fresh_db
   \<and> (\<exists>i. SaveURL no_faults [] [] fresh_db =
        (Inr i, fresh_db\<lparr>url_tbl := Some (rows fresh_db @ [\<lparr>row_id = i, row_alias = [], row_url = []\<rparr>])\<rparr>)
      \<and> live (snd (SaveURL no_faults [] [] fresh_db)) []
      \<and> GetURL no_faults [] (snd (SaveURL no_faults [] [] fresh_db)) = Inr [])"
proof -
  have e: "([]::string) = [] \<or> ([]::string) = []" by simp
  from SaveURL_accepts_empty [OF e fresh_db_facts(3) fresh_db_facts(6) healthy_no_faults
      healthy_no_faults fresh_db_facts(4)]
    fresh_db_facts(3,4) fresh_db_facts(6) [of "[]"] healthy_no_faults
  show ?thesis by blast
qed

end
